theory Spec2Isabelle
  imports Main "HOL-Library.Sublist" "HOL-Library.AList"
begin

unbundle bit_operations_syntax

section \<open>Poetry's \<open>self update\<close> command\<close>

text \<open>
  A shallow embedding of \<^verbatim>\<open>src/poetry/console/commands/self/update.py\<close>
  (class \<^verbatim>\<open>SelfUpdateCommand\<close>). Methods whose Python name starts with an underscore
  lose it: \<^verbatim>\<open>_update\<close> is \<open>inner_update\<close>, \<^verbatim>\<open>_which_python\<close> is \<open>which_python\<close>,
  \<^verbatim>\<open>_check_recommended_installation\<close> is \<open>check_recommended_installation\<close> and
  \<^verbatim>\<open>_get_release_name\<close> is \<open>get_release_name\<close>.

  Text and bytes are both \<open>string\<close> (lists of 8-bit characters); a path is the list
  of its parts, as \<^verbatim>\<open>pathlib\<close> has it. A directory tree is an association list from
  relative file names to files, and a directory that may be absent is a
  \<open>tree option\<close>. Every effect is a function from the world to a result and the
  world after it; an exception is the result \<open>Inl\<close>.
\<close>

subsection \<open>Data\<close>

type_synonym bytes = string
type_synonym path = "string list"

text \<open>A file: its bytes and its permission bits.\<close>

record regular_file =
  content :: bytes
  mode :: nat

type_synonym tree = "(string \<times> regular_file) list"

text \<open>The exceptions that the command and the library calls it makes can raise.\<close>

datatype error =
    HTTPError nat
  | URLError
  | ConnectionError
  | RuntimeError string
  | PoetrySimpleConsoleException string
  | TypeError
  | ValueError
  | KeyError
  | UnicodeDecodeError
  | FileExistsError
  | FileNotFoundError
  | OSError
  | ExtractError
  | RepositoryError

text \<open>What \<^verbatim>\<open>subprocess.check_output\<close> does: it raises \<^verbatim>\<open>CalledProcessError\<close> on a
  non-zero exit status (with \<^verbatim>\<open>shell=True\<close> that includes a command that does not exist),
  and returns what the command printed otherwise.\<close>

datatype proc_result = CalledProcessError | Stdout bytes

text \<open>An HTTP response as \<^verbatim>\<open>urlopen\<close> returns it: the \<^verbatim>\<open>Content-Length\<close> header if the
  server sent one, the body, and whether the connection breaks once the body has been
  delivered (the next read raises instead of returning the empty buffer).\<close>

record response =
  content_length :: "string option"
  body :: bytes
  broken :: bool

text \<open>A package of the repository: \<^verbatim>\<open>package.version\<close> and \<^verbatim>\<open>package.is_prerelease()\<close>.
  Versions are a linear order (\<^verbatim>\<open>poetry.core.semver.version.Version\<close> is not part of
  this repository).\<close>

record 'v package =
  version :: 'v
  is_prerelease :: bool

text \<open>The four directories the command works on: \<^verbatim>\<open>self.lib\<close>, \<^verbatim>\<open>self.lib_backup\<close>,
  \<^verbatim>\<open>self.bin\<close> and the directory of \<^verbatim>\<open>temporary_directory\<close>.\<close>

datatype place = Lib | Lib_backup | Bin | Tmp

text \<open>The effects, in the order they happen. The flag of a tree operation says whether
  it completed.\<close>

datatype event =
    Find_packages string bool
  | Urlopen string
  | Mkdtemp
  | Open_write place string
  | Rmtree place bool
  | Copytree place place bool
  | Extractall place bool
  | Mkdir place
  | Chmod place string

text \<open>What the user sees: lines and the progress bar.\<close>

datatype display = Line string | Bar_start int | Bar_progress nat | Bar_finish

record world =
  lib :: "tree option"
  lib_backup :: "tree option"
  bin :: "tree option"
  tmp :: "tree option"
  log :: "event list"
  out :: "display list"

text \<open>
  Everything the command reads from outside: the process environment, the command line,
  the network, the package repository, the subprocesses, and the library functions that
  are not part of this repository (\<^verbatim>\<open>hashlib\<close>, \<^verbatim>\<open>tarfile\<close>, \<^verbatim>\<open>int\<close>, \<^verbatim>\<open>bytes.decode\<close>,
  \<^verbatim>\<open>Path.expanduser\<close>, \<^verbatim>\<open>str\<close> of a path and of a version).

  \<^item> \<open>fault k\<close> says whether the tree operation (\<^verbatim>\<open>shutil.rmtree\<close>, \<^verbatim>\<open>shutil.copytree\<close>)
    issued when the log holds \<open>k\<close> events fails: \<open>None\<close> is success, \<open>Some residue\<close> is
    an \<^verbatim>\<open>OSError\<close> that leaves \<open>residue\<close> at the path the operation was writing or
    removing. Creating a directory and writing a single file are taken to succeed.
  \<^item> \<open>extractall b l\<close> is \<^verbatim>\<open>GzipFile\<close> and \<^verbatim>\<open>TarFile.extractall\<close> of the archive \<open>b\<close>
    into a directory that holds \<open>l\<close>: the exception raised, if any, and what the
    directory holds afterwards.
  \<^item> \<open>new_file_mode\<close> is the permission bits a newly created file gets.
\<close>

record 'v env =
  POETRY_HOME :: "string option"
  USERPROFILE :: "string option"
  expanduser :: "string \<Rightarrow> path"
  path_str :: "path \<Rightarrow> string"
  file_path :: path
  argument_version :: "string option"
  option_preview :: bool
  current_version :: string
  version_parse :: "string \<Rightarrow> 'v"
  version_str :: "'v \<Rightarrow> string"
  find_packages :: "string \<Rightarrow> bool \<Rightarrow> error + 'v package list"
  platform :: string
  WINDOWS :: bool
  http :: "string \<Rightarrow> error + response"
  sha256_hexdigest :: "bytes \<Rightarrow> string"
  decode :: "bytes \<Rightarrow> string option"
  py_int :: "string \<Rightarrow> int option"
  extractall :: "bytes \<Rightarrow> tree option \<Rightarrow> error option \<times> tree option"
  fault :: "nat \<Rightarrow> tree option option"
  check_output :: "string \<Rightarrow> proc_result"
  new_file_mode :: nat

subsection \<open>Strings\<close>

text \<open>\<^verbatim>\<open>str.strip()\<close>: the white space of \<^verbatim>\<open>str.isspace\<close> among the 7-bit characters.\<close>

definition is_space :: "char \<Rightarrow> bool" where
  "is_space c = (c \<in> set [CHR 0x20, CHR 0x09, CHR 0x0A, CHR 0x0B, CHR 0x0C, CHR 0x0D,
                          CHR 0x1C, CHR 0x1D, CHR 0x1E, CHR 0x1F])"

definition strip :: "string \<Rightarrow> string" where
  "strip s = rev (dropWhile is_space (rev (dropWhile is_space s)))"

definition is_digit :: "char \<Rightarrow> bool" where
  "is_digit c = (c \<in> set ''0123456789'')"

text \<open>\<^verbatim>\<open>int\<close> of a string of decimal digits.\<close>

definition digits_val :: "string \<Rightarrow> nat" where
  "digits_val ds = foldl (\<lambda>n c. 10 * n + (of_char c - 48)) 0 ds"

subsection \<open>The interpreter for the launcher: \<^verbatim>\<open>_which_python\<close>\<close>

text \<open>
  \<^verbatim>\<open>re.compile(r"^Python (?P<major>\d+)\.(?P<minor>\d+)\..+$").match\<close>, with the two
  groups converted by \<^verbatim>\<open>int\<close>. A digit run followed by a literal dot can only be
  the longest digit run; \<^verbatim>\<open>.+\<close> takes one or more characters other than newline and
  \<^verbatim>\<open>$\<close> matches at the end of the string or before a newline that ends it.
\<close>

definition version_matcher :: "string \<Rightarrow> (nat \<times> nat) option" where
  "version_matcher s =
    (if take 7 s = ''Python '' then
       (let r1 = drop 7 s;
            major = takeWhile is_digit r1;
            r2 = dropWhile is_digit r1
        in if major \<noteq> [] \<and> take 1 r2 = ''.'' then
             (let r3 = drop 1 r2;
                  minor = takeWhile is_digit r3;
                  r4 = dropWhile is_digit r3
              in if minor \<noteq> [] \<and> take 1 r4 = ''.'' then
                   (let rest = drop 1 r4;
                        line = takeWhile (\<lambda>c. c \<noteq> CHR 0x0A) rest;
                        tail = dropWhile (\<lambda>c. c \<noteq> CHR 0x0A) rest
                    in if line \<noteq> [] \<and> (tail = [] \<or> tail = [CHR 0x0A])
                       then Some (digits_val major, digits_val minor)
                       else None)
                 else None)
           else None)
     else None)"

text \<open>Python's comparison of pairs, \<^verbatim>\<open>(a, b) >= (c, d)\<close>, is lexicographic.\<close>

definition tuple_ge :: "nat \<times> nat \<Rightarrow> nat \<times> nat \<Rightarrow> bool" where
  "tuple_ge x y = (fst y < fst x \<or> (fst x = fst y \<and> snd y \<le> snd x))"

text \<open>How the \<^verbatim>\<open>for\<close> loop of \<^verbatim>\<open>_which_python\<close> ends: at its \<^verbatim>\<open>return executable\<close>, or
  after the last candidate with the value of \<^verbatim>\<open>fallback\<close>.\<close>

datatype loop_exit = Return string | Exhausted "string option"

fun which_python_loop :: "'v env \<Rightarrow> string list \<Rightarrow> string option \<Rightarrow> error + loop_exit" where
  "which_python_loop e [] fallback = Inr (Exhausted fallback)"
| "which_python_loop e (executable # rest) fallback =
    (case check_output e (executable @ '' --version'') of
       CalledProcessError \<Rightarrow> which_python_loop e rest fallback
     | Stdout raw \<Rightarrow>
        (case decode e raw of
           None \<Rightarrow> Inl UnicodeDecodeError
         | Some raw_version \<Rightarrow>
            (let match = version_matcher (strip raw_version)
             in if match \<noteq> None \<and> tuple_ge (the match) (3, 0) then Inr (Return executable)
                else which_python_loop e rest
                       (if fallback = None then Some executable else fallback))))"

definition allowed_executables :: "'v env \<Rightarrow> string list" where
  "allowed_executables e =
     [''python'', ''python3''] @ (if WINDOWS e then [''py.exe -3'', ''py.exe -2''] else [])"

definition which_python :: "'v env \<Rightarrow> error + string" where
  "which_python e =
    (case which_python_loop e (allowed_executables e) None of
       Inl err \<Rightarrow> Inl err
     | Inr (Return executable) \<Rightarrow> Inr executable
     | Inr (Exhausted fallback) \<Rightarrow>
         Inr (case fallback of None \<Rightarrow> ''python'' | Some f \<Rightarrow> f))"





subsection \<open>The world: directories, the log and the terminal\<close>

fun get_dir :: "place \<Rightarrow> world \<Rightarrow> tree option" where
  "get_dir Lib s = lib s"
| "get_dir Lib_backup s = lib_backup s"
| "get_dir Bin s = bin s"
| "get_dir Tmp s = tmp s"

fun put_dir :: "place \<Rightarrow> tree option \<Rightarrow> world \<Rightarrow> world" where
  "put_dir Lib t s = s\<lparr>lib := t\<rparr>"
| "put_dir Lib_backup t s = s\<lparr>lib_backup := t\<rparr>"
| "put_dir Bin t s = s\<lparr>bin := t\<rparr>"
| "put_dir Tmp t s = s\<lparr>tmp := t\<rparr>"

definition record_event :: "event \<Rightarrow> world \<Rightarrow> world" where
  "record_event ev s = s\<lparr>log := log s @ [ev]\<rparr>"

definition show_display :: "display \<Rightarrow> world \<Rightarrow> world" where
  "show_display d s = s\<lparr>out := out s @ [d]\<rparr>"

text \<open>\<^verbatim>\<open>self.line(text)\<close>\<close>

definition line :: "string \<Rightarrow> world \<Rightarrow> world" where
  "line text s = show_display (Line text) s"

text \<open>\<^verbatim>\<open>path.exists()\<close>\<close>

definition path_exists :: "place \<Rightarrow> world \<Rightarrow> bool" where
  "path_exists p s = (get_dir p s \<noteq> None)"

text \<open>\<^verbatim>\<open>shutil.rmtree(path)\<close>: the path must exist; the removal can fail part way.\<close>

definition rmtree :: "'v env \<Rightarrow> place \<Rightarrow> world \<Rightarrow> (error + unit) \<times> world" where
  "rmtree e p s =
    (if get_dir p s = None then (Inl FileNotFoundError, record_event (Rmtree p False) s)
     else (case fault e (length (log s)) of
             Some residue \<Rightarrow> (Inl OSError, record_event (Rmtree p False) (put_dir p residue s))
           | None \<Rightarrow> (Inr (), record_event (Rmtree p True) (put_dir p None s))))"

text \<open>\<^verbatim>\<open>shutil.copytree(src, dst)\<close>: the source must exist, the destination must not
  (\<^verbatim>\<open>dirs_exist_ok\<close> is false by default); the copy can fail part way.\<close>

definition copytree :: "'v env \<Rightarrow> place \<Rightarrow> place \<Rightarrow> world \<Rightarrow> (error + unit) \<times> world" where
  "copytree e src dst s =
    (case get_dir src s of
       None \<Rightarrow> (Inl FileNotFoundError, record_event (Copytree src dst False) s)
     | Some t \<Rightarrow>
        if get_dir dst s \<noteq> None
        then (Inl FileExistsError, record_event (Copytree src dst False) s)
        else (case fault e (length (log s)) of
                Some residue \<Rightarrow>
                  (Inl OSError, record_event (Copytree src dst False) (put_dir dst residue s))
              | None \<Rightarrow>
                  (Inr (), record_event (Copytree src dst True) (put_dir dst (Some t) s))))"

text \<open>Opening a file of a directory for writing and writing \<open>text\<close> to it: the
  directory must exist; an existing file keeps its permission bits.\<close>

definition write_file ::
  "'v env \<Rightarrow> place \<Rightarrow> string \<Rightarrow> bytes \<Rightarrow> world \<Rightarrow> (error + unit) \<times> world" where
  "write_file e p name text s =
    (case get_dir p s of
       None \<Rightarrow> (Inl FileNotFoundError, s)
     | Some t \<Rightarrow>
        (let m = (case map_of t name of None \<Rightarrow> new_file_mode e | Some f \<Rightarrow> mode f)
         in (Inr (), record_event (Open_write p name)
                       (put_dir p (Some (AList.update name \<lparr>content = text, mode = m\<rparr> t)) s))))"

text \<open>Modelled from the spec: \<^verbatim>\<open>poetry.utils.helpers.temporary_directory\<close>, which is not
  under \<^verbatim>\<open>src/\<close>. It is a context manager that gives a fresh private directory and
  discards it with all it holds when the block is left, whether by an exception or not.\<close>

definition temporary_directory_enter :: "world \<Rightarrow> world" where
  "temporary_directory_enter s = record_event Mkdtemp (s\<lparr>tmp := Some []\<rparr>)"

definition temporary_directory_exit :: "world \<Rightarrow> world" where
  "temporary_directory_exit s = record_event (Rmtree Tmp True) (s\<lparr>tmp := None\<rparr>)"

subsection \<open>The installation check: \<^verbatim>\<open>_check_recommended_installation\<close>\<close>

text \<open>\<^verbatim>\<open>Path(os.environ.get("POETRY_HOME", "~/.poetry")).expanduser()\<close>\<close>

definition home :: "'v env \<Rightarrow> path" where
  \<open>home e = expanduser e (case POETRY_HOME e of None \<Rightarrow> ''~/.poetry'' | Some h \<Rightarrow> h)\<close>

text \<open>\<^verbatim>\<open>current.relative_to(other)\<close> compares the parts of the two paths and raises
  \<^verbatim>\<open>ValueError\<close> unless those of \<open>other\<close> begin those of \<open>current\<close>.\<close>

definition relative_to :: "path \<Rightarrow> path \<Rightarrow> error + path" where
  "relative_to current other =
    (if prefix other current then Inr (drop (length other) current) else Inl ValueError)"

definition check_recommended_installation :: "'v env \<Rightarrow> world \<Rightarrow> (error + unit) \<times> world" where
  "check_recommended_installation e s =
    (let current = file_path e
     in case relative_to current (home e) of
          Inl ValueError \<Rightarrow>
            (Inl (PoetrySimpleConsoleException
               (''Poetry was not installed with the recommended installer, '' @
                ''so it cannot be updated automatically.'')), s)
        | Inl err \<Rightarrow> (Inl err, s)
        | Inr rel \<Rightarrow> (Inr (), s))"

subsection \<open>The launcher: \<^verbatim>\<open>make_bin\<close>\<close>

definition BIN :: string where
  \<open>BIN = concat (map (\<lambda>l. l @ [CHR 0x0A])
    [''# -*- coding: utf-8 -*-'',
     ''import glob'',
     ''import sys'',
     ''import os'',
     [],
     ''lib = os.path.normpath(os.path.join(os.path.realpath(__file__), "../..", "lib"))'',
     ''vendors = os.path.join(lib, "poetry", "_vendor")'',
     ''current_vendors = os.path.join('',
     ''    vendors, "py{}".format(".".join(str(v) for v in sys.version_info[:2]))'',
     '')'',
     ''sys.path.insert(0, lib)'',
     ''sys.path.insert(0, current_vendors)'',
     [],
     ''if __name__ == "__main__":'',
     ''    from poetry.console import main'',
     ''    main()''])\<close>

text \<open>\<^verbatim>\<open>BAT.format(python_executable=..., poetry_bin=...)\<close>\<close>

definition BAT :: "string \<Rightarrow> string \<Rightarrow> string" where
  \<open>BAT python_executable poetry_bin =
     ''@echo off'' @ [CHR 0x0D, CHR 0x0A] @ python_executable @ '' "'' @ poetry_bin @ ''" %*'' @
     [CHR 0x0D, CHR 0x0A]\<close>

text \<open>\<^verbatim>\<open>s.replace(old, new)\<close>: every occurrence of \<open>old\<close>, from the left, without overlap;
  an empty \<open>old\<close> matches before every character and at the end.\<close>

function replace :: "string \<Rightarrow> string \<Rightarrow> string \<Rightarrow> string" where
  "replace old new s =
    (if old = [] then concat (map (\<lambda>c. new @ [c]) s) @ new
     else if s = [] then []
     else if prefix old s then new @ replace old new (drop (length old) s)
     else hd s # replace old new (tl s))"
  by pat_completeness auto
termination
  by (relation "measure (\<lambda>(old, new, s). length s)") auto

declare replace.simps [simp del]

text \<open>\<^verbatim>\<open>stat.S_IEXEC\<close> is \<^verbatim>\<open>0o100\<close>.\<close>

definition S_IEXEC :: nat where
  "S_IEXEC = 64"

text \<open>\<^verbatim>\<open>os.chmod(p, os.stat(p).st_mode | stat.S_IEXEC)\<close>\<close>

definition chmod_exec :: "place \<Rightarrow> string \<Rightarrow> world \<Rightarrow> (error + unit) \<times> world" where
  "chmod_exec p name s =
    (case get_dir p s of
       None \<Rightarrow> (Inl FileNotFoundError, s)
     | Some t \<Rightarrow>
        (case map_of t name of
           None \<Rightarrow> (Inl FileNotFoundError, s)
         | Some f \<Rightarrow>
            (Inr (), record_event (Chmod p name)
                       (put_dir p (Some (AList.update name (f\<lparr>mode := mode f OR S_IEXEC\<rparr>) t)) s))))"

text \<open>The \<^verbatim>\<open>if WINDOWS:\<close> block of \<^verbatim>\<open>make_bin\<close>. The file is opened, and so created or
  emptied, before \<^verbatim>\<open>os.environ["USERPROFILE"]\<close> is read.\<close>

definition write_bat :: "'v env \<Rightarrow> string \<Rightarrow> world \<Rightarrow> (error + unit) \<times> world" where
  "write_bat e python_executable s =
    (case write_file e Bin ''poetry.bat'' [] s of
       (Inl err, s1) \<Rightarrow> (Inl err, s1)
     | (Inr u, s1) \<Rightarrow>
        (case USERPROFILE e of
           None \<Rightarrow> (Inl KeyError, s1)
         | Some profile \<Rightarrow>
            (let poetry_bin = replace profile ''%USERPROFILE%''
                                (path_str e (home e @ [''bin'', ''poetry'']));
                 t = (case bin s1 of None \<Rightarrow> [] | Some t \<Rightarrow> t);
                 f = (case map_of t ''poetry.bat'' of
                        None \<Rightarrow> \<lparr>content = [], mode = new_file_mode e\<rparr> | Some f \<Rightarrow> f)
             in (Inr (), s1\<lparr>bin := Some (AList.update ''poetry.bat''
                             (f\<lparr>content := BAT python_executable poetry_bin\<rparr>) t)\<rparr>))))"

definition make_bin :: "'v env \<Rightarrow> world \<Rightarrow> (error + unit) \<times> world" where
  "make_bin e s =
    (let s1 = record_event (Mkdir Bin)
                (s\<lparr>bin := Some (case bin s of None \<Rightarrow> [] | Some t \<Rightarrow> t)\<rparr>)
     in case which_python e of
          Inl err \<Rightarrow> (Inl err, s1)
        | Inr python_executable \<Rightarrow>
           (case (if WINDOWS e then write_bat e python_executable s1 else (Inr (), s1)) of
              (Inl err, s2) \<Rightarrow> (Inl err, s2)
            | (Inr u, s2) \<Rightarrow>
               (let bin_content =
                      (if \<not> WINDOWS e
                       then ''#!/usr/bin/env '' @ python_executable @ [CHR 0x0A] @ BIN
                       else BIN)
                in case write_file e Bin ''poetry'' bin_content s2 of
                     (Inl err, s3) \<Rightarrow> (Inl err, s3)
                   | (Inr u, s3) \<Rightarrow>
                       if \<not> WINDOWS e then chmod_exec Bin ''poetry'' s3 else (Inr (), s3))))"

subsection \<open>Download, verification and extraction: \<^verbatim>\<open>_update\<close>\<close>

definition REPOSITORY_URL :: string where
  "REPOSITORY_URL = ''https://github.com/python-poetry/poetry''"

definition BASE_URL :: string where
  "BASE_URL = REPOSITORY_URL @ ''/releases/download''"

definition get_release_name :: "'v env \<Rightarrow> 'v \<Rightarrow> string" where
  "get_release_name e v =
    (let platform = (if platform e = ''linux2'' then ''linux'' else platform e)
     in ''poetry-'' @ version_str e v @ ''-'' @ platform)"

text \<open>\<^verbatim>\<open>urlopen(url)\<close>: a request, answered by the network.\<close>

definition urlopen :: "'v env \<Rightarrow> string \<Rightarrow> world \<Rightarrow> (error + response) \<times> world" where
  "urlopen e url s = (http e url, record_event (Urlopen url) s)"

text \<open>The \<^verbatim>\<open>try: r = urlopen(...) except HTTPError as e:\<close> block, which \<^verbatim>\<open>_update\<close> has once
  for the checksum file and once for the archive: status 404 becomes a
  \<^verbatim>\<open>RuntimeError\<close>, every other exception goes on as it is.\<close>

definition urlopen_or_missing ::
  "'v env \<Rightarrow> string \<Rightarrow> string \<Rightarrow> world \<Rightarrow> (error + response) \<times> world" where
  "urlopen_or_missing e url name s =
    (case urlopen e url s of
       (Inl (HTTPError code), s1) \<Rightarrow>
         (if code = 404 then (Inl (RuntimeError (''Could not find '' @ name @ '' file'')), s1)
          else (Inl (HTTPError code), s1))
     | (Inl err, s1) \<Rightarrow> (Inl err, s1)
     | (Inr r, s1) \<Rightarrow> (Inr r, s1))"

definition block_size :: nat where
  "block_size = 8192"

text \<open>The \<^verbatim>\<open>while True:\<close> loop: \<^verbatim>\<open>r.read(block_size)\<close> takes the next block of the
  stream; the loop ends at the empty block. The digest object is the bytes it has been
  fed so far.\<close>

function download_loop ::
  "bytes \<Rightarrow> nat \<Rightarrow> bytes \<Rightarrow> bytes \<Rightarrow> display list \<Rightarrow> nat \<times> bytes \<times> bytes \<times> display list" where
  "download_loop stream current f sha shown =
    (let buffer = take block_size stream
     in if buffer = [] then (current, f, sha, shown)
        else download_loop (drop block_size stream) (current + length buffer)
               (f @ buffer) (sha @ buffer)
               (shown @ [Bar_progress (current + length buffer)]))"
  by pat_completeness auto
termination
  by (relation "measure (\<lambda>(stream, current, f, sha, shown). length stream)")
     (auto simp: block_size_def)

declare download_loop.simps [simp del]

text \<open>The body of the \<^verbatim>\<open>with temporary_directory(...) as dir_:\<close> block, from the opened
  archive file on.\<close>

definition download_and_extract ::
  "'v env \<Rightarrow> string \<Rightarrow> string \<Rightarrow> response \<Rightarrow> world \<Rightarrow> (error + unit) \<times> world" where
  "download_and_extract e name checksum r s =
    (case write_file e Tmp name [] s of
       (Inl err, s1) \<Rightarrow> (Inl err, s1)
     | (Inr u, s1) \<Rightarrow>
        (case download_loop (body r) 0 [] [] [] of
           (current, f, sha, shown) \<Rightarrow>
             (let s2 = s1\<lparr>tmp := Some [(name, \<lparr>content = f, mode = new_file_mode e\<rparr>)],
                          out := out s1 @ shown\<rparr>
              in if broken r then (Inl ConnectionError, s2)
                 else
                   (let s3 = show_display Bar_finish s2
                    in if checksum \<noteq> sha256_hexdigest e sha
                       then (Inl (RuntimeError
                                (''Hashes for '' @ name @ '' do not match: '' @ checksum @
                                 '' != '' @ sha256_hexdigest e sha)), s3)
                       else (case extractall e f (lib s3) of
                               (Some err, l) \<Rightarrow>
                                 (Inl err, record_event (Extractall Lib False) (s3\<lparr>lib := l\<rparr>))
                             | (None, l) \<Rightarrow>
                                 (Inr (), record_event (Extractall Lib True) (s3\<lparr>lib := l\<rparr>)))))))"

definition inner_update :: "'v env \<Rightarrow> 'v \<Rightarrow> world \<Rightarrow> (error + unit) \<times> world" where
  "inner_update e v s =
    (let release_name = get_release_name e v;
         checksum_file = release_name @ ''.sha256sum'';
         base_url = BASE_URL
     in case urlopen_or_missing e (base_url @ ''/'' @ version_str e v @ ''/'' @ checksum_file)
               checksum_file s of
          (Inl err, s1) \<Rightarrow> (Inl err, s1)
        | (Inr r, s1) \<Rightarrow>
           if broken r then (Inl ConnectionError, s1)
           else
             (case decode e (body r) of
                None \<Rightarrow> (Inl UnicodeDecodeError, s1)
              | Some text \<Rightarrow>
                 (let checksum = strip text;
                      name = release_name @ ''.tar.gz''
                  in case urlopen_or_missing e (base_url @ ''/'' @ version_str e v @ ''/'' @ name)
                            name s1 of
                       (Inl err, s2) \<Rightarrow> (Inl err, s2)
                     | (Inr r, s2) \<Rightarrow>
                        (case content_length r of
                           None \<Rightarrow> (Inl TypeError, s2)
                         | Some header \<Rightarrow>
                            (case py_int e header of
                               None \<Rightarrow> (Inl ValueError, s2)
                             | Some bar_max \<Rightarrow>
                                (let s3 = show_display (Bar_start bar_max) s2;
                                     s4 = temporary_directory_enter s3
                                 in case download_and_extract e name checksum r s4 of
                                      (res, s5) \<Rightarrow> (res, temporary_directory_exit s5)))))))"

subsection \<open>Backup, replacement and restoration: \<^verbatim>\<open>update\<close>\<close>

text \<open>The \<^verbatim>\<open>finally:\<close> clause of \<^verbatim>\<open>update\<close>: it runs with the outcome of the \<^verbatim>\<open>try\<close> and
  \<^verbatim>\<open>except\<close> clauses, and an exception of its own replaces that outcome.\<close>

definition update_finally :: "'v env \<Rightarrow> (error + unit) \<times> world \<Rightarrow> (error + unit) \<times> world" where
  "update_finally e outcome =
    (case outcome of
       (res, s) \<Rightarrow>
         if path_exists Lib_backup s
         then (case rmtree e Lib_backup s of
                 (Inl err, s1) \<Rightarrow> (Inl err, s1)
               | (Inr u, s1) \<Rightarrow> (res, s1))
         else (res, s))"

text \<open>The two \<^verbatim>\<open>if\<close> blocks of \<^verbatim>\<open>update\<close> that come before its \<^verbatim>\<open>try\<close>: a backup
  directory left by an earlier run is removed, and the current installation is copied
  to the backup directory and then removed.\<close>

definition backup_installation :: "'v env \<Rightarrow> world \<Rightarrow> (error + unit) \<times> world" where
  "backup_installation e s0 =
    (case (if path_exists Lib_backup s0 then rmtree e Lib_backup s0 else (Inr (), s0)) of
       (Inl err, s1) \<Rightarrow> (Inl err, s1)
     | (Inr u, s1) \<Rightarrow>
        if path_exists Lib s1
        then (case copytree e Lib Lib_backup s1 of
                (Inl err, s2) \<Rightarrow> (Inl err, s2)
              | (Inr u, s2) \<Rightarrow> rmtree e Lib s2)
        else (Inr (), s1))"

text \<open>The \<^verbatim>\<open>try: self._update(version)\<close> with its \<^verbatim>\<open>except Exception:\<close> clause: without
  a backup the exception goes on; with one, the backup is copied back and removed, and
  then the exception goes on. An exception raised by the clause itself replaces it.\<close>

definition try_update :: "'v env \<Rightarrow> 'v \<Rightarrow> world \<Rightarrow> (error + unit) \<times> world" where
  "try_update e v s3 =
    (case inner_update e v s3 of
       (Inl err, s4) \<Rightarrow>
         if \<not> path_exists Lib_backup s4 then (Inl err, s4)
         else (case copytree e Lib_backup Lib s4 of
                 (Inl err', s5) \<Rightarrow> (Inl err', s5)
               | (Inr u, s5) \<Rightarrow>
                  (case rmtree e Lib_backup s5 of
                     (Inl err', s6) \<Rightarrow> (Inl err', s6)
                   | (Inr u, s6) \<Rightarrow> (Inl err, s6)))
     | (Inr u, s4) \<Rightarrow> (Inr (), s4))"

definition update :: "'v env \<Rightarrow> 'v package \<Rightarrow> world \<Rightarrow> (error + unit) \<times> world" where
  "update e release s =
    (let v = version release;
         s0 = line (''Updating to <info>'' @ version_str e v @ ''</info>'') s
     in case backup_installation e s0 of
          (Inl err, s3) \<Rightarrow> (Inl err, s3)
        | (Inr u, s3) \<Rightarrow>
           (case update_finally e (try_update e v s3) of
              (Inl err, s7) \<Rightarrow> (Inl err, s7)
            | (Inr u, s7) \<Rightarrow>
               (case make_bin e s7 of
                  (Inl err, s8) \<Rightarrow> (Inl err, s8)
                | (Inr u, s8) \<Rightarrow>
                   (Inr (), line (''<info>Poetry</info> (<comment>'' @ version_str e v @
                                  ''</comment>) is installed now. Great!'')
                              (line [] (line [] s8))))))"

subsection \<open>Choosing the release: \<^verbatim>\<open>handle\<close>\<close>

text \<open>The comparison that \<^verbatim>\<open>handle\<close> sorts by:
  \<^verbatim>\<open>0 if x.version == y.version else int(x.version < y.version or -1)\<close>.\<close>

definition cmp :: "('v::linorder) package \<Rightarrow> 'v package \<Rightarrow> int" where
  "cmp x y = (if version x = version y then 0 else if version x < version y then 1 else - 1)"

text \<open>\<^verbatim>\<open>list.sort(key=cmp_to_key(c))\<close>: a stable sort that puts \<open>x\<close> before \<open>y\<close> when
  \<open>c x y < 0\<close>, here as the stable insertion sort.\<close>

fun insort_cmp :: "('a \<Rightarrow> 'a \<Rightarrow> int) \<Rightarrow> 'a \<Rightarrow> 'a list \<Rightarrow> 'a list" where
  "insort_cmp c x [] = [x]"
| "insort_cmp c x (y # ys) = (if c y x < 0 then y # insort_cmp c x ys else x # y # ys)"

definition sort_cmp :: "('a \<Rightarrow> 'a \<Rightarrow> int) \<Rightarrow> 'a list \<Rightarrow> 'a list" where
  "sort_cmp c xs = foldr (insort_cmp c) xs []"

text \<open>The \<^verbatim>\<open>for package in packages:\<close> loop, with the value of \<^verbatim>\<open>release\<close> at its end.\<close>

fun select_release :: "bool \<Rightarrow> 'v package list \<Rightarrow> 'v package option" where
  "select_release preview [] = None"
| "select_release preview (package # rest) =
    (if is_prerelease package
     then (if preview then Some package else select_release preview rest)
     else Some package)"

text \<open>The version constraint that \<^verbatim>\<open>handle\<close> asks the repository for: the argument, or
  \<^verbatim>\<open>">=" + __version__\<close> when there is none (\<^verbatim>\<open>if not version:\<close>).\<close>

definition requested_version :: "'v env \<Rightarrow> string" where
  "requested_version e =
    (case argument_version e of
       None \<Rightarrow> ''>='' @ current_version e
     | Some a \<Rightarrow> if a = [] then ''>='' @ current_version e else a)"

definition handle :: "('v::linorder) env \<Rightarrow> world \<Rightarrow> (error + unit) \<times> world" where
  "handle e s =
    (case check_recommended_installation e s of
       (Inl err, s0) \<Rightarrow> (Inl err, s0)
     | (Inr u, s0) \<Rightarrow>
        (let v = requested_version e;
             s1 = record_event (Find_packages v (option_preview e)) s0
         in case find_packages e v (option_preview e) of
              Inl err \<Rightarrow> (Inl err, s1)
            | Inr packages \<Rightarrow>
               if packages = []
               then (Inr (), line ''No release found for the specified version'' s1)
               else
                 (case select_release (option_preview e) (sort_cmp cmp packages) of
                    None \<Rightarrow> (Inr (), line ''No new release found'' s1)
                  | Some release \<Rightarrow>
                     if version release = version_parse e (current_version e)
                     then (Inr (), line ''You are using the latest version'' s1)
                     else update e release s1)))"

subsection \<open>The properties in the words of the specification\<close>



text \<open>The events that a run added to the log.\<close>

definition new_events :: "world \<Rightarrow> world \<Rightarrow> event list" where
  "new_events s s' = drop (length (log s)) (log s')"

text \<open>The directory an event writes to, if any.\<close>

fun written :: "event \<Rightarrow> place option" where
  "written (Find_packages v p) = None"
| "written (Urlopen url) = None"
| "written Mkdtemp = Some Tmp"
| "written (Open_write p name) = Some p"
| "written (Rmtree p b) = Some p"
| "written (Copytree src dst b) = Some dst"
| "written (Extractall p b) = Some p"
| "written (Mkdir p) = Some p"
| "written (Chmod p name) = Some p"

text \<open>A candidate qualifies when it is not a prerelease or prereleases are allowed.\<close>

definition qualifies :: "bool \<Rightarrow> 'v package \<Rightarrow> bool" where
  "qualifies preview p = (preview \<or> \<not> is_prerelease p)"




subsection \<open>An installation to run the command on\<close>

text \<open>Version 1.1.0 is installed under \<^verbatim>\<open>/home/user/.poetry\<close>; the repository has 1.1.0,
  1.2.0 and the prerelease 1.3.0a1 (versions are numbered 1, 2 and 3 in that order). The
  archive of 1.2.0 is the five bytes \<^verbatim>\<open>hello\<close>, whose SHA-256 digest the checksum file
  holds; \<^verbatim>\<open>python\<close> is Python 2.7 and \<^verbatim>\<open>python3\<close> is Python 3.9.\<close>

definition digest_hello :: string where
  "digest_hello = ''2cf24dba5fb0a30e26e83b2ac5b9e29e1b161e5c1fa7425e73043362938b9824''"

definition digest_empty :: string where
  "digest_empty = ''e3b0c44298fc1c149afbf4c8996fb92427ae41e4649b934ca495991b7852b855''"

definition old_tree :: tree where
  "old_tree = [(''poetry/__init__.py'', \<lparr>content = ''old'', mode = 420\<rparr>),
               (''poetry/console.py'', \<lparr>content = ''old console'', mode = 420\<rparr>)]"

definition new_tree :: tree where
  "new_tree = [(''poetry/__init__.py'', \<lparr>content = ''new'', mode = 420\<rparr>),
               (''poetry/console.py'', \<lparr>content = ''new console'', mode = 420\<rparr>)]"

definition partial_tree :: tree where
  "partial_tree = [(''poetry/__init__.py'', \<lparr>content = ''new'', mode = 420\<rparr>)]"

definition example_http :: "string \<Rightarrow> error + response" where
  "example_http url =
    (if url = ''https://github.com/python-poetry/poetry/releases/download/1.2.0/poetry-1.2.0-linux.sha256sum''
     then Inr \<lparr>content_length = Some ''65'', body = digest_hello @ [CHR 0x0A], broken = False\<rparr>
     else if url = ''https://github.com/python-poetry/poetry/releases/download/1.2.0/poetry-1.2.0-linux.tar.gz''
     then Inr \<lparr>content_length = Some ''5'', body = ''hello'', broken = False\<rparr>
     else Inl (HTTPError 404))"

definition example_env :: "nat env" where
  "example_env =
    \<lparr>POETRY_HOME = None,
     USERPROFILE = None,
     expanduser = (\<lambda>p. [''/'', ''home'', ''user'', ''.poetry'']),
     path_str = (\<lambda>p. concat (map (\<lambda>part. ''/'' @ part) (tl p))),
     file_path = [''/'', ''home'', ''user'', ''.poetry'', ''lib'', ''poetry'', ''console'',
                  ''commands'', ''self'', ''update.py''],
     argument_version = None,
     option_preview = False,
     current_version = ''1.1.0'',
     version_parse = (\<lambda>t. if t = ''1.1.0'' then 1 else if t = ''1.2.0'' then 2 else 3),
     version_str = (\<lambda>v. if v = 1 then ''1.1.0'' else if v = 2 then ''1.2.0'' else ''1.3.0a1''),
     find_packages = (\<lambda>v preview.
        Inr [\<lparr>version = 1, is_prerelease = False\<rparr>,
             \<lparr>version = 3, is_prerelease = True\<rparr>,
             \<lparr>version = 2, is_prerelease = False\<rparr>]),
     platform = ''linux'',
     WINDOWS = False,
     http = example_http,
     sha256_hexdigest = (\<lambda>b. if b = ''hello'' then digest_hello else digest_empty),
     decode = (\<lambda>b. Some b),
     py_int = (\<lambda>t. if t = ''5'' then Some 5 else if t = ''65'' then Some 65 else None),
     extractall = (\<lambda>b l. (None, Some new_tree)),
     fault = (\<lambda>k. None),
     check_output = (\<lambda>c.
        if c = ''python --version'' then Stdout (''Python 2.7.18'' @ [CHR 0x0A])
        else if c = ''python3 --version'' then Stdout (''Python 3.9.1'' @ [CHR 0x0A])
        else CalledProcessError),
     new_file_mode = 420\<rparr>"

definition example_world :: world where
  "example_world =
    \<lparr>lib = Some old_tree, lib_backup = None, bin = Some [], tmp = None, log = [], out = []\<rparr>"

definition release_1_2_0 :: "nat package" where
  "release_1_2_0 = \<lparr>version = 2, is_prerelease = False\<rparr>"


text \<open>The same installation when the archive passes the digest check but cannot be
  unpacked to the end (a truncated stream, a full disk): \<^verbatim>\<open>extractall\<close> raises after it
  has written one file.\<close>

definition failing_extract_env :: "nat env" where
  "failing_extract_env =
     example_env\<lparr>extractall := (\<lambda>b l. (Some ExtractError, Some partial_tree))\<rparr>"






text \<open>The same installation when the release files are not on the server: every
  request is answered with status 404.\<close>

definition missing_release_env :: "nat env" where
  "missing_release_env = example_env\<lparr>http := (\<lambda>url. Inl (HTTPError 404))\<rparr>"

section \<open>Properties\<close>

subsection \<open>The interpreter probe\<close>





subsection \<open>The installation check\<close>



subsection \<open>Choosing the release\<close>

lemma set_insort_cmp: "set (insort_cmp c x ys) = insert x (set ys)"
  by (induction ys) auto

lemma set_sort_cmp: "set (sort_cmp c xs) = set xs"
  by (induction xs) (auto simp: sort_cmp_def set_insort_cmp)

lemma sort_cmp_Nil_iff: "sort_cmp c xs = [] \<longleftrightarrow> xs = []"
  using set_sort_cmp[of c xs] by (metis set_empty)

lemma descending_insort_cmp:
  fixes x :: "('v::linorder) package"
  assumes "sorted_wrt (\<lambda>a b. version b \<le> version a) ys"
  shows "sorted_wrt (\<lambda>a b. version b \<le> version a) (insort_cmp cmp x ys)"
  using assms
  by (induction ys) (auto simp: set_insort_cmp cmp_def split: if_splits)

lemma descending_sort_cmp:
  "sorted_wrt (\<lambda>a b. version b \<le> version a) (sort_cmp cmp (xs :: ('v::linorder) package list))"
  by (induction xs) (auto simp: sort_cmp_def intro: descending_insort_cmp[unfolded sort_cmp_def])

lemma select_release_find: "select_release preview xs = find (qualifies preview) xs"
  by (induction xs) (auto simp: qualifies_def)

lemma find_Some_member: "find P xs = Some r \<Longrightarrow> r \<in> set xs \<and> P r"
  by (induction xs) (auto split: if_splits)

lemma find_descending_greatest:
  assumes "sorted_wrt (\<lambda>a b. version b \<le> version a) xs"
      and "find P xs = Some r" and "p \<in> set xs" and "P p"
  shows "version p \<le> version (r :: ('v::linorder) package)"
  using assms
  by (induction xs) (auto split: if_splits)

lemma select_release_not_prerelease:
  "select_release False xs = Some r \<Longrightarrow> \<not> is_prerelease r"
  by (induction xs) (auto split: if_splits)

lemma select_release_all_prerelease:
  "\<forall>p\<in>set xs. is_prerelease p \<Longrightarrow> select_release False xs = None"
  by (induction xs) auto

text \<open>
  Claim C5. Without \<^verbatim>\<open>--preview\<close> the release that the loop of \<^verbatim>\<open>handle\<close> picks from the
  sorted candidates is never a prerelease, also when a prerelease has the highest version.
  When every candidate is a prerelease, \<^verbatim>\<open>handle\<close> returns normally after printing that
  no release was found, and does nothing else: no exception, no update.
\<close>

theorem no_prerelease_without_preview:
  fixes e :: "('v::linorder) env"
  assumes "\<not> option_preview e"
  shows "(\<forall>r. select_release (option_preview e) (sort_cmp cmp ps) = Some r \<longrightarrow>
             \<not> is_prerelease r \<and> r \<in> set ps)
       \<and> (prefix (home e) (file_path e) \<and>
          find_packages e (requested_version e) (option_preview e) = Inr ps \<and>
          (\<forall>p\<in>set ps. is_prerelease p) \<longrightarrow>
          handle e s =
            (Inr (), line (if ps = [] then ''No release found for the specified version''
                           else ''No new release found'')
                       (record_event (Find_packages (requested_version e) False) s)))"
proof -
  have a: "\<not> is_prerelease r \<and> r \<in> set ps"
    if "select_release (option_preview e) (sort_cmp cmp ps) = Some r" for r
  proof -
    from that assms have "\<not> is_prerelease r"
      by (auto dest: select_release_not_prerelease)
    moreover from that have "r \<in> set (sort_cmp cmp ps)"
      by (auto simp: select_release_find dest: find_Some_member)
    ultimately show ?thesis by (simp add: set_sort_cmp)
  qed
  have b: "handle e s =
            (Inr (), line (if ps = [] then ''No release found for the specified version''
                           else ''No new release found'')
                       (record_event (Find_packages (requested_version e) False) s))"
    if "prefix (home e) (file_path e)"
       "find_packages e (requested_version e) (option_preview e) = Inr ps"
       "\<forall>p\<in>set ps. is_prerelease p"
  proof -
    from that(3) have "select_release False (sort_cmp cmp ps) = None"
      by (intro select_release_all_prerelease) (simp add: set_sort_cmp)
    with that(1,2) assms show ?thesis
      by (simp add: handle_def check_recommended_installation_def relative_to_def)
  qed
  from a b show ?thesis by blast
qed

text \<open>
  Claim C6. When the highest version among the qualifying candidates is the installed
  version, \<^verbatim>\<open>handle\<close> prints \<^verbatim>\<open>You are using the latest version\<close> and returns; the query to
  the repository is the only event of the run, so nothing is requested or written after
  the versions were found equal.
\<close>

theorem already_current:
  fixes e :: "('v::linorder) env"
  assumes inst: "prefix (home e) (file_path e)"
      and found: "find_packages e (requested_version e) (option_preview e) = Inr ps"
      and some: "\<exists>p\<in>set ps. qualifies (option_preview e) p \<and>
                   version p = version_parse e (current_version e)"
      and highest: "\<forall>p\<in>set ps. qualifies (option_preview e) p \<longrightarrow>
                   version p \<le> version_parse e (current_version e)"
  shows "handle e s =
           (Inr (), line ''You are using the latest version''
                      (record_event (Find_packages (requested_version e) (option_preview e)) s))"
proof -
  let ?xs = "sort_cmp cmp ps"
  let ?P = "qualifies (option_preview e)"
  from some obtain p where p: "p \<in> set ps" "?P p"
    "version p = version_parse e (current_version e)" by blast
  then have "ps \<noteq> []" by auto
  from p have "\<exists>x\<in>set ?xs. ?P x" by (auto simp: set_sort_cmp)
  then obtain r where r: "find ?P ?xs = Some r"
    by (cases "find ?P ?xs") (auto simp: find_None_iff)
  then have rin: "r \<in> set ps" "?P r"
    using find_Some_member[OF r] by (simp_all add: set_sort_cmp)
  from find_descending_greatest[OF descending_sort_cmp r, of p] p
  have "version p \<le> version r" by (simp add: set_sort_cmp)
  moreover from highest rin have "version r \<le> version_parse e (current_version e)" by blast
  ultimately have "version r = version_parse e (current_version e)" using p(3) by simp
  with r inst found \<open>ps \<noteq> []\<close> show ?thesis
    by (simp add: handle_def check_recommended_installation_def relative_to_def
        select_release_find)
qed


theorem no_prerelease_without_preview_witness:
  "\<not> option_preview example_env
   \<and> select_release False
        (sort_cmp cmp [\<lparr>version = 1::nat, is_prerelease = False\<rparr>,
                       \<lparr>version = 3, is_prerelease = True\<rparr>,
                       \<lparr>version = 2, is_prerelease = False\<rparr>])
       = Some \<lparr>version = 2, is_prerelease = False\<rparr>
   \<and> handle (example_env\<lparr>find_packages :=
                (\<lambda>v preview. Inr [\<lparr>version = 3, is_prerelease = True\<rparr>])\<rparr>) example_world
       = (Inr (), line ''No new release found''
                    (record_event (Find_packages ''>=1.1.0'' False) example_world))"
proof -
  let ?e = "example_env\<lparr>find_packages :=
                (\<lambda>v preview. Inr [\<lparr>version = 3, is_prerelease = True\<rparr>])\<rparr>"
  have p: "\<not> option_preview ?e" "\<not> option_preview example_env"
    by (simp_all add: example_env_def)
  have h: "prefix (home ?e) (file_path ?e)"
    by (simp add: home_def example_env_def)
  have f: "find_packages ?e (requested_version ?e) (option_preview ?e)
             = Inr [\<lparr>version = 3, is_prerelease = True\<rparr>]"
    by simp
  have v: "requested_version ?e = ''>=1.1.0''"
    by (simp add: requested_version_def example_env_def)
  have s: "select_release False
        (sort_cmp cmp [\<lparr>version = 1::nat, is_prerelease = False\<rparr>,
                       \<lparr>version = 3, is_prerelease = True\<rparr>,
                       \<lparr>version = 2, is_prerelease = False\<rparr>])
       = Some \<lparr>version = 2, is_prerelease = False\<rparr>"
    by (simp add: sort_cmp_def cmp_def)
  from no_prerelease_without_preview[OF p(1), of "[\<lparr>version = 3, is_prerelease = True\<rparr>]" example_world]
       h f v p s
  show ?thesis by simp
qed

theorem already_current_witness:
  "prefix (home (example_env\<lparr>current_version := ''1.2.0''\<rparr>))
          (file_path (example_env\<lparr>current_version := ''1.2.0''\<rparr>))
   \<and> handle (example_env\<lparr>current_version := ''1.2.0''\<rparr>) example_world
       = (Inr (), line ''You are using the latest version''
                    (record_event (Find_packages ''>=1.2.0'' False) example_world))"
proof -
  let ?e = "example_env\<lparr>current_version := ''1.2.0''\<rparr>"
  let ?ps = "[\<lparr>version = 1::nat, is_prerelease = False\<rparr>,
              \<lparr>version = 3, is_prerelease = True\<rparr>,
              \<lparr>version = 2, is_prerelease = False\<rparr>]"
  have h: "prefix (home ?e) (file_path ?e)"
    by (simp add: home_def example_env_def)
  have f: "find_packages ?e (requested_version ?e) (option_preview ?e) = Inr ?ps"
    by (simp add: example_env_def)
  have v: "requested_version ?e = ''>=1.2.0''" "option_preview ?e = False"
    by (simp_all add: requested_version_def example_env_def)
  have c: "version_parse ?e (current_version ?e) = 2"
    by (simp add: example_env_def)
  have a: "\<exists>p\<in>set ?ps. qualifies (option_preview ?e) p \<and>
                   version p = version_parse ?e (current_version ?e)"
    unfolding c v by (simp add: qualifies_def)
  have b: "\<forall>p\<in>set ?ps. qualifies (option_preview ?e) p \<longrightarrow>
                   version p \<le> version_parse ?e (current_version ?e)"
    unfolding c v by (simp add: qualifies_def)
  from already_current[OF h f a b, of example_world] h v show ?thesis by simp
qed

subsection \<open>Download, verification and extraction\<close>

lemma rmtree_frame:
  assumes "rmtree e p s = (r, s')"
  shows "(\<exists>b. log s' = log s @ [Rmtree p b]) \<and> out s' = out s
    \<and> (p \<noteq> Lib \<longrightarrow> lib s' = lib s) \<and> (p \<noteq> Lib_backup \<longrightarrow> lib_backup s' = lib_backup s)
    \<and> (p \<noteq> Bin \<longrightarrow> bin s' = bin s) \<and> (p \<noteq> Tmp \<longrightarrow> tmp s' = tmp s)
    \<and> (r = Inr () \<longrightarrow> get_dir p s' = None)"
  using assms
  by (cases p) (auto simp: rmtree_def record_event_def split: if_splits option.splits)

lemma copytree_frame:
  assumes "copytree e src dst s = (r, s')"
  shows "(\<exists>b. log s' = log s @ [Copytree src dst b] \<and> (b \<longleftrightarrow> r = Inr ())) \<and> out s' = out s
    \<and> (dst \<noteq> Lib \<longrightarrow> lib s' = lib s) \<and> (dst \<noteq> Lib_backup \<longrightarrow> lib_backup s' = lib_backup s)
    \<and> (dst \<noteq> Bin \<longrightarrow> bin s' = bin s) \<and> (dst \<noteq> Tmp \<longrightarrow> tmp s' = tmp s)
    \<and> (r = Inr () \<longrightarrow> src \<noteq> dst \<longrightarrow> get_dir dst s' = get_dir src s \<and> get_dir src s \<noteq> None)
    \<and> (get_dir dst s \<noteq> None \<longrightarrow> s' = record_event (Copytree src dst False) s \<and> r \<noteq> Inr ())"
  using assms
  by (cases dst; cases src)
     (auto simp: copytree_def record_event_def split: if_splits option.splits)

lemma urlopen_or_missing_frame:
  assumes "urlopen_or_missing e url name s = (r, s')"
  shows "s' = record_event (Urlopen url) s"
  using assms
  by (auto simp: urlopen_or_missing_def urlopen_def split: sum.splits error.splits if_splits)

lemma download_and_extract_shape:
  assumes "download_and_extract e name checksum r s = (res, s')" and "tmp s \<noteq> None"
  shows "lib_backup s' = lib_backup s \<and> bin s' = bin s \<and>
     ((lib s' = lib s \<and> res \<noteq> Inr () \<and> log s' = log s @ [Open_write Tmp name])
      \<or> (\<exists>b. log s' = log s @ [Open_write Tmp name, Extractall Lib b] \<and> (res = Inr ()) = b))"
proof -
  obtain c f sha shown where dl: "download_loop (body r) 0 [] [] [] = (c, f, sha, shown)"
    by (cases "download_loop (body r) 0 [] [] []") auto
  from assms dl show ?thesis
    unfolding download_and_extract_def write_file_def record_event_def show_display_def Let_def
    by (auto split: option.splits if_splits prod.splits)
qed

text \<open>The events of the download phase other than the extraction.\<close>

lemma inner_update_shape:
  assumes "inner_update e v s = (r, s')"
  shows "lib_backup s' = lib_backup s \<and> bin s' = bin s \<and> (tmp s' = tmp s \<or> tmp s' = None) \<and>
    (\<exists>evs. log s' = log s @ evs \<and>
       ((lib s' = lib s \<and> r \<noteq> Inr () \<and>
           (\<forall>ev\<in>set evs. written ev = None \<or> written ev = Some Tmp))
        \<or> (\<exists>pre b. evs = pre @ [Extractall Lib b, Rmtree Tmp True] \<and> (r = Inr ()) = b \<and>
               (\<forall>ev\<in>set pre. written ev = None \<or> written ev = Some Tmp))))"
proof -
  let ?c = "get_release_name e v @ ''.sha256sum''"
  let ?n = "get_release_name e v @ ''.tar.gz''"
  let ?u1 = "BASE_URL @ ''/'' @ version_str e v @ ''/'' @ ?c"
  let ?u2 = "BASE_URL @ ''/'' @ version_str e v @ ''/'' @ ?n"
  obtain r1 s1 where o1: "urlopen_or_missing e ?u1 ?c s = (r1, s1)"
    by (cases "urlopen_or_missing e ?u1 ?c s") auto
  note f1 = urlopen_or_missing_frame[OF o1]
  obtain r2 s2 where o2: "urlopen_or_missing e ?u2 ?n s1 = (r2, s2)"
    by (cases "urlopen_or_missing e ?u2 ?n s1") auto
  note f2 = urlopen_or_missing_frame[OF o2]
  show ?thesis
  proof (cases "\<exists>resp1 t1 resp2 h2 k. r1 = Inr resp1 \<and> \<not> broken resp1 \<and>
        decode e (body resp1) = Some t1 \<and> r2 = Inr resp2 \<and> content_length resp2 = Some h2 \<and>
        py_int e h2 = Some k")
    case False
    with assms o1 o2 f1 f2 show ?thesis
      unfolding inner_update_def Let_def
      by (auto simp: record_event_def split: sum.splits option.splits if_splits)
  next
    case True
    then obtain resp1 t1 resp2 h2 k where t: "r1 = Inr resp1" "\<not> broken resp1"
        "decode e (body resp1) = Some t1" "r2 = Inr resp2" "content_length resp2 = Some h2"
        "py_int e h2 = Some k" by blast
    let ?s4 = "temporary_directory_enter (show_display (Bar_start k) s2)"
    obtain res s5 where de: "download_and_extract e ?n (strip t1) resp2 ?s4 = (res, s5)"
      by (cases "download_and_extract e ?n (strip t1) resp2 ?s4") auto
    have "tmp ?s4 \<noteq> None"
      by (simp add: temporary_directory_enter_def record_event_def)
    note sh = download_and_extract_shape[OF de this]
    from assms o1 o2 t de have res: "r = res" "s' = temporary_directory_exit s5"
      unfolding inner_update_def Let_def by simp_all
    from sh show ?thesis
      unfolding res f1 f2
      by (auto simp: temporary_directory_enter_def temporary_directory_exit_def
          record_event_def show_display_def)
  qed
qed




lemma download_loop_short:
  assumes "stream \<noteq> []" "length stream \<le> block_size"
  shows "download_loop stream c f sha shown =
     (c + length stream, f @ stream, sha @ stream, shown @ [Bar_progress (c + length stream)])"
  using assms
  by (simp add: download_loop.simps[of stream] download_loop.simps[of "[]"] block_size_def)




lemma new_events_append: "log s' = log s @ evs \<Longrightarrow> new_events s s' = evs"
  by (simp add: new_events_def)

lemmas run_defs = inner_update_def urlopen_or_missing_def urlopen_def download_and_extract_def
  write_file_def temporary_directory_enter_def temporary_directory_exit_def record_event_def
  show_display_def get_release_name_def BASE_URL_def REPOSITORY_URL_def strip_def is_space_def
  Let_def













subsection \<open>Backup, replacement and restoration\<close>

lemma backup_installation_shape:
  assumes "backup_installation e s0 = (r, w)"
  shows "bin w = bin s0 \<and> tmp w = tmp s0 \<and> out w = out s0 \<and>
    (\<exists>evs. log w = log s0 @ evs \<and>
       (\<forall>ev\<in>set evs. written ev = Some Lib \<or> written ev = Some Lib_backup) \<and>
       (((\<forall>b. Rmtree Lib b \<notin> set evs) \<and> (r = Inr () \<longrightarrow> lib s0 = None \<and> lib w = None))
        \<or> (\<exists>pre b. evs = pre @ [Copytree Lib Lib_backup True, Rmtree Lib b] \<and>
              (\<forall>b. Rmtree Lib b \<notin> set pre) \<and> lib_backup w = lib s0 \<and> lib s0 \<noteq> None \<and>
              (r = Inr () \<longrightarrow> lib w = None))))"
proof -
  obtain r1 s1 where st: "(if path_exists Lib_backup s0 then rmtree e Lib_backup s0 else (Inr (), s0)) = (r1, s1)"
    by (cases "if path_exists Lib_backup s0 then rmtree e Lib_backup s0 else (Inr (), s0)") auto
  have f1: "bin s1 = bin s0 \<and> tmp s1 = tmp s0 \<and> out s1 = out s0 \<and> lib s1 = lib s0 \<and>
      (log s1 = log s0 \<or> (\<exists>b. log s1 = log s0 @ [Rmtree Lib_backup b])) \<and>
      (r1 = Inr () \<longrightarrow> lib_backup s1 = None)"
  proof (cases "path_exists Lib_backup s0")
    case True
    with st have "rmtree e Lib_backup s0 = (r1, s1)" by simp
    from rmtree_frame[OF this] show ?thesis by auto
  next
    case False
    with st show ?thesis by (auto simp: path_exists_def)
  qed
  show ?thesis
  proof (cases r1)
    case (Inl err)
    with assms st f1 show ?thesis
      by (auto simp: backup_installation_def)
  next
    case (Inr u)
    show ?thesis
    proof (cases "path_exists Lib s1")
      case False
      with assms st Inr have "r = Inr ()" "w = s1"
        by (auto simp: backup_installation_def)
      with f1 False show ?thesis by (auto simp: path_exists_def)
    next
      case True
      obtain r2 s2 where c: "copytree e Lib Lib_backup s1 = (r2, s2)"
        by (cases "copytree e Lib Lib_backup s1") auto
      note fc = copytree_frame[OF c]
      show ?thesis
      proof (cases r2)
        case (Inl err)
        with assms st \<open>r1 = Inr u\<close> True c have "r = Inl err" "w = s2"
          by (auto simp: backup_installation_def)
        with f1 fc Inl show ?thesis by auto
      next
        case (Inr u')
        with assms st \<open>r1 = Inr u\<close> True c have rm: "rmtree e Lib s2 = (r, w)"
          by (auto simp: backup_installation_def)
        note fr = rmtree_frame[OF rm]
        from fc Inr have l2: "log s2 = log s1 @ [Copytree Lib Lib_backup True]"
          and b2: "lib_backup s2 = lib s1" "lib s1 \<noteq> None" by auto
        from fr obtain b where lw: "log w = log s2 @ [Rmtree Lib b]" by blast
        from f1 have "log s1 = log s0 \<or> (\<exists>b. log s1 = log s0 @ [Rmtree Lib_backup b])" by simp
        then obtain pre where pre: "log s1 = log s0 @ pre" "\<forall>b. Rmtree Lib b \<notin> set pre"
          "\<forall>ev\<in>set pre. written ev = Some Lib \<or> written ev = Some Lib_backup"
          by (elim disjE exE) (force+)
        have "log w = log s0 @ (pre @ [Copytree Lib Lib_backup True, Rmtree Lib b])"
          using lw l2 pre by simp
        moreover have "lib_backup w = lib s0" using fr b2 f1 by simp
        moreover have "bin w = bin s0 \<and> tmp w = tmp s0 \<and> out w = out s0"
          using fr fc f1 by simp
        moreover have "r = Inr () \<longrightarrow> lib w = None" using fr by simp
        ultimately show ?thesis using pre(2,3) b2 f1
          by (intro conjI exI[of _ "pre @ [Copytree Lib Lib_backup True, Rmtree Lib b]"]) auto
      qed
    qed
  qed
qed

lemma try_update_shape:
  assumes "try_update e v s3 = (r, s6)" and "inner_update e v s3 = (r4, s4)"
  shows "bin s6 = bin s4 \<and>
    (\<exists>evs. log s6 = log s4 @ evs \<and>
       (\<forall>ev\<in>set evs. (\<exists>b. ev = Copytree Lib_backup Lib b) \<or> (\<exists>b. ev = Rmtree Lib_backup b))) \<and>
    (r4 = Inr () \<longrightarrow> r = Inr () \<and> s6 = s4) \<and> (r4 \<noteq> Inr () \<longrightarrow> r \<noteq> Inr ())"
proof (cases r4)
  case (Inr u)
  with assms show ?thesis by (auto simp: try_update_def)
next
  case (Inl err)
  show ?thesis
  proof (cases "path_exists Lib_backup s4")
    case False
    with assms Inl show ?thesis by (auto simp: try_update_def)
  next
    case True
    obtain r5 s5 where c: "copytree e Lib_backup Lib s4 = (r5, s5)"
      by (cases "copytree e Lib_backup Lib s4") auto
    note fc = copytree_frame[OF c]
    show ?thesis
    proof (cases r5)
      case (Inl err')
      with assms \<open>r4 = Inl err\<close> True c have "r = Inl err'" "s6 = s5"
        by (auto simp: try_update_def)
      with fc show ?thesis using \<open>r4 = Inl err\<close> by auto
    next
      case (Inr u)
      obtain r6 s6' where rm: "rmtree e Lib_backup s5 = (r6, s6')"
        by (cases "rmtree e Lib_backup s5") auto
      note fr = rmtree_frame[OF rm]
      from assms \<open>r4 = Inl err\<close> True c Inr rm have "s6 = s6'" "r \<noteq> Inr ()"
        by (auto simp: try_update_def split: sum.splits)
      moreover from fc fr obtain b b' where
        "log s6' = log s4 @ [Copytree Lib_backup Lib b, Rmtree Lib_backup b']" by auto
      moreover have "bin s6' = bin s4" using fc fr by simp
      ultimately show ?thesis using \<open>r4 = Inl err\<close>
        by (intro conjI exI[of _ "[Copytree Lib_backup Lib b, Rmtree Lib_backup b']"]) auto
    qed
  qed
qed

lemma update_finally_shape:
  assumes "update_finally e (r, s) = (r', s')"
  shows "bin s' = bin s \<and> lib s' = lib s \<and>
    (\<exists>evs. log s' = log s @ evs \<and> (\<forall>ev\<in>set evs. \<exists>b. ev = Rmtree Lib_backup b)) \<and>
    (r \<noteq> Inr () \<longrightarrow> r' \<noteq> Inr ())"
proof (cases "path_exists Lib_backup s")
  case False
  with assms show ?thesis by (auto simp: update_finally_def)
next
  case True
  obtain r1 s1 where rm: "rmtree e Lib_backup s = (r1, s1)"
    by (cases "rmtree e Lib_backup s") auto
  note fr = rmtree_frame[OF rm]
  from assms True rm have "s' = s1" "r \<noteq> Inr () \<longrightarrow> r' \<noteq> Inr ()"
    by (auto simp: update_finally_def split: sum.splits)
  with fr show ?thesis by auto
qed

lemma write_file_shape:
  assumes "write_file e Bin name t s = (r, s')"
  shows "lib s' = lib s \<and> lib_backup s' = lib_backup s \<and> tmp s' = tmp s \<and>
     (log s' = log s \<or> log s' = log s @ [Open_write Bin name])"
  using assms
  by (auto simp: write_file_def record_event_def Let_def split: option.splits)

lemma write_bat_shape:
  assumes "write_bat e py s = (r, s')"
  shows "lib s' = lib s \<and> lib_backup s' = lib_backup s \<and> tmp s' = tmp s \<and>
     (log s' = log s \<or> log s' = log s @ [Open_write Bin ''poetry.bat''])"
proof -
  obtain r1 s1 where w: "write_file e Bin ''poetry.bat'' [] s = (r1, s1)"
    by (cases "write_file e Bin ''poetry.bat'' [] s") auto
  note f = write_file_shape[OF w]
  from assms w have "lib s' = lib s1 \<and> lib_backup s' = lib_backup s1 \<and> tmp s' = tmp s1
      \<and> log s' = log s1"
    by (auto simp: write_bat_def Let_def split: sum.splits option.splits)
  with f show ?thesis by auto
qed

lemma chmod_exec_shape:
  assumes "chmod_exec Bin name s = (r, s')"
  shows "lib s' = lib s \<and> lib_backup s' = lib_backup s \<and> tmp s' = tmp s \<and>
     (log s' = log s \<or> log s' = log s @ [Chmod Bin name])"
  using assms
  by (auto simp: chmod_exec_def record_event_def split: option.splits)

lemma make_bin_shape:
  assumes "make_bin e s = (r, s')"
  shows "lib s' = lib s \<and> lib_backup s' = lib_backup s \<and> tmp s' = tmp s \<and>
     (\<exists>evs. log s' = log s @ evs \<and> (\<forall>ev\<in>set evs. written ev = Some Bin))"
proof -
  let ?s1 = "record_event (Mkdir Bin) (s\<lparr>bin := Some (case bin s of None \<Rightarrow> [] | Some t \<Rightarrow> t)\<rparr>)"
  have l1: "log ?s1 = log s @ [Mkdir Bin]" "lib ?s1 = lib s" "lib_backup ?s1 = lib_backup s"
    "tmp ?s1 = tmp s"
    by (simp_all add: record_event_def)
  show ?thesis
  proof (cases "which_python e")
    case (Inl err)
    with assms have "s' = ?s1" by (simp add: make_bin_def Let_def)
    with l1 show ?thesis by auto
  next
    case (Inr py)
    obtain r2 s2 where b: "(if WINDOWS e then write_bat e py ?s1 else (Inr (), ?s1)) = (r2, s2)"
      by (cases "if WINDOWS e then write_bat e py ?s1 else (Inr (), ?s1)") auto
    have f2: "lib s2 = lib s \<and> lib_backup s2 = lib_backup s \<and> tmp s2 = tmp s \<and>
       (\<exists>evs. log s2 = log s @ evs \<and> (\<forall>ev\<in>set evs. written ev = Some Bin))"
    proof (cases "WINDOWS e")
      case True
      with b have "write_bat e py ?s1 = (r2, s2)" by simp
      from write_bat_shape[OF this] l1 show ?thesis by auto
    next
      case False
      with b l1 show ?thesis by auto
    qed
    show ?thesis
    proof (cases r2)
      case (Inl err)
      with assms Inr b have "s' = s2" by (simp add: make_bin_def Let_def)
      with f2 show ?thesis by simp
    next
      case inr2: (Inr u)
      let ?c = "if \<not> WINDOWS e then ''#!/usr/bin/env '' @ py @ [CHR 0x0A] @ BIN else BIN"
      obtain r3 s3 where w: "write_file e Bin ''poetry'' ?c s2 = (r3, s3)"
        by (cases "write_file e Bin ''poetry'' ?c s2") auto
      note f3 = write_file_shape[OF w]
      from f2 f3 have f3': "lib s3 = lib s \<and> lib_backup s3 = lib_backup s \<and> tmp s3 = tmp s \<and>
         (\<exists>evs. log s3 = log s @ evs \<and> (\<forall>ev\<in>set evs. written ev = Some Bin))"
        by auto
      show ?thesis
      proof (cases "r3 = Inr () \<and> \<not> WINDOWS e")
        case False
        with assms Inr b inr2 w have "s' = s3"
          by (auto simp: make_bin_def Let_def split: sum.splits)
        with f3' show ?thesis by simp
      next
        case True
        with assms Inr b inr2 w have "chmod_exec Bin ''poetry'' s3 = (r, s')"
          by (auto simp: make_bin_def Let_def)
        from chmod_exec_shape[OF this] f3' show ?thesis by auto
      qed
    qed
  qed
qed

lemma inner_update_no_removal:
  assumes "inner_update e v s = (r, s')"
  shows "\<exists>evs. log s' = log s @ evs \<and> (\<forall>b. Rmtree Lib b \<notin> set evs) \<and>
           (\<forall>ev\<in>set evs. written ev \<noteq> Some Bin)"
proof -
  from inner_update_shape[OF assms] obtain evs where l: "log s' = log s @ evs"
    and c: "(\<forall>ev\<in>set evs. written ev = None \<or> written ev = Some Tmp)
        \<or> (\<exists>pre b. evs = pre @ [Extractall Lib b, Rmtree Tmp True] \<and>
               (\<forall>ev\<in>set pre. written ev = None \<or> written ev = Some Tmp))"
    by blast
  from c have "(\<forall>b. Rmtree Lib b \<notin> set evs) \<and> (\<forall>ev\<in>set evs. written ev \<noteq> Some Bin)"
    by (elim disjE exE conjE) force+
  with l show ?thesis by blast
qed

text \<open>What follows the backup in a run of \<^verbatim>\<open>update\<close>: the download with its \<^verbatim>\<open>except\<close>
  and \<^verbatim>\<open>finally\<close> clauses, and the launcher only after they ended normally.\<close>

lemma after_backup:
  assumes b: "backup_installation e (line (''Updating to <info>'' @ version_str e (version rel) @ ''</info>'') s) = (Inr (), w)"
      and d: "inner_update e (version rel) w = (r4, s4)"
  shows "\<exists>post. log (snd (update e rel s)) = log w @ post \<and> (\<forall>b. Rmtree Lib b \<notin> set post) \<and>
      (r4 \<noteq> Inr () \<longrightarrow> fst (update e rel s) \<noteq> Inr () \<and> bin (snd (update e rel s)) = bin w \<and>
         (\<forall>ev\<in>set post. written ev \<noteq> Some Bin))"
proof -
  let ?v = "version rel"
  obtain r6 s6 where t: "try_update e ?v w = (r6, s6)"
    by (cases "try_update e ?v w") auto
  obtain r7 s7 where f: "update_finally e (r6, s6) = (r7, s7)"
    by (cases "update_finally e (r6, s6)") auto
  from inner_update_no_removal[OF d] obtain e1 where
    e1: "log s4 = log w @ e1" "\<forall>b. Rmtree Lib b \<notin> set e1" "\<forall>ev\<in>set e1. written ev \<noteq> Some Bin"
    by blast
  from inner_update_shape[OF d] have b4: "bin s4 = bin w" by simp
  from try_update_shape[OF t d] obtain e2 where
    e2: "log s6 = log s4 @ e2"
        "\<forall>ev\<in>set e2. (\<exists>b. ev = Copytree Lib_backup Lib b) \<or> (\<exists>b. ev = Rmtree Lib_backup b)"
    and b6: "bin s6 = bin s4" and r6: "r4 \<noteq> Inr () \<longrightarrow> r6 \<noteq> Inr ()"
    by blast
  from update_finally_shape[OF f] obtain e3 where
    e3: "log s7 = log s6 @ e3" "\<forall>ev\<in>set e3. \<exists>b. ev = Rmtree Lib_backup b"
    and b7: "bin s7 = bin s6" and r7: "r6 \<noteq> Inr () \<longrightarrow> r7 \<noteq> Inr ()"
    by blast
  have l7: "log s7 = log w @ (e1 @ e2 @ e3)" using e1 e2 e3 by simp
  have n7: "\<forall>b. Rmtree Lib b \<notin> set (e1 @ e2 @ e3)" using e1(2) e2(2) e3(2) by auto
  have w7: "\<forall>ev\<in>set (e1 @ e2 @ e3). written ev \<noteq> Some Bin" using e1(3) e2(2) e3(2) by auto
  show ?thesis
  proof (cases r7)
    case (Inl err)
    with b t f have u: "update e rel s = (Inl err, s7)"
      by (simp add: update_def Let_def)
    show ?thesis unfolding u using l7 n7 w7 b7 b6 b4 by auto
  next
    case (Inr u)
    with r6 r7 have ok: "r4 = Inr ()" by auto
    obtain r8 s8 where m: "make_bin e s7 = (r8, s8)"
      by (cases "make_bin e s7") auto
    from make_bin_shape[OF m] obtain e4 where
      e4: "log s8 = log s7 @ e4" "\<forall>ev\<in>set e4. written ev = Some Bin" by blast
    from b t f Inr m have "log (snd (update e rel s)) = log s8"
      by (auto simp: update_def Let_def line_def show_display_def split: sum.splits)
    then have "log (snd (update e rel s)) = log w @ (e1 @ e2 @ e3 @ e4)"
      using e4 l7 by simp
    moreover have "\<forall>b. Rmtree Lib b \<notin> set (e1 @ e2 @ e3 @ e4)"
      using n7 e4(2) by auto
    ultimately show ?thesis using ok by blast
  qed
qed

text \<open>
  Claim C10. In a run of \<^verbatim>\<open>update\<close> whose backup went through and whose download,
  verification or extraction raised, \<^verbatim>\<open>update\<close> raises too, the launcher directory holds
  what it held before, and no event of the run writes to it: \<^verbatim>\<open>make_bin\<close> is reached only
  when \<^verbatim>\<open>_update\<close> and the \<^verbatim>\<open>finally\<close> clause ended normally.
\<close>

theorem failed_download_leaves_launcher:
  assumes b: "backup_installation e (line (''Updating to <info>'' @ version_str e (version rel) @ ''</info>'') s) = (Inr (), w)"
      and d: "inner_update e (version rel) w = (Inl err, w')"
  shows "(\<exists>err'. fst (update e rel s) = Inl err')
       \<and> bin (snd (update e rel s)) = bin s
       \<and> (\<forall>ev\<in>set (new_events s (snd (update e rel s))). written ev \<noteq> Some Bin)"
proof -
  let ?s0 = "line (''Updating to <info>'' @ version_str e (version rel) @ ''</info>'') s"
  have s0: "log ?s0 = log s" "bin ?s0 = bin s" by (simp_all add: line_def show_display_def)
  from backup_installation_shape[OF b] obtain e0 where
    e0: "log w = log ?s0 @ e0" "\<forall>ev\<in>set e0. written ev = Some Lib \<or> written ev = Some Lib_backup"
    and bw: "bin w = bin ?s0" by blast
  from after_backup[OF b d] obtain post where
    p: "log (snd (update e rel s)) = log w @ post" "fst (update e rel s) \<noteq> Inr ()"
       "bin (snd (update e rel s)) = bin w" "\<forall>ev\<in>set post. written ev \<noteq> Some Bin"
    by auto
  have "new_events s (snd (update e rel s)) = e0 @ post"
    using p(1) e0(1) s0(1) by (simp add: new_events_def)
  moreover from p(2) have "\<exists>err'. fst (update e rel s) = Inl err'"
    by (cases "fst (update e rel s)") auto
  ultimately show ?thesis using p(3,4) e0(2) bw s0(2) by auto
qed

text \<open>
  Claim C4. In every run of \<^verbatim>\<open>update\<close> the removal of the library directory is either
  never begun, or it is the event right after the copy to the backup directory has
  completed, and no other removal of the library directory happens in the run. And
  whenever the backup block has begun that removal, whether it went through or failed
  part way, the library directory existed and the backup directory holds the whole of
  what it held.
\<close>

theorem backup_complete_before_removal:
  "(\<exists>evs. log (snd (update e rel s)) = log s @ evs \<and>
      ((\<forall>b. Rmtree Lib b \<notin> set evs)
       \<or> (\<exists>pre b post. evs = pre @ [Copytree Lib Lib_backup True, Rmtree Lib b] @ post \<and>
             (\<forall>b'. Rmtree Lib b' \<notin> set pre) \<and> (\<forall>b'. Rmtree Lib b' \<notin> set post))))
   \<and> (\<forall>r0 w b. backup_installation e s0 = (r0, w) \<and> Rmtree Lib b \<in> set (new_events s0 w)
         \<longrightarrow> lib s0 \<noteq> None \<and> lib_backup w = lib s0)"
proof -
  let ?s0 = "line (''Updating to <info>'' @ version_str e (version rel) @ ''</info>'') s"
  have s0: "log ?s0 = log s" by (simp add: line_def show_display_def)
  obtain r0 w where b: "backup_installation e ?s0 = (r0, w)"
    by (cases "backup_installation e ?s0") auto
  from backup_installation_shape[OF b] obtain e0 where
    e0: "log w = log s @ e0"
    and c0: "(\<forall>b. Rmtree Lib b \<notin> set e0)
        \<or> (\<exists>pre b. e0 = pre @ [Copytree Lib Lib_backup True, Rmtree Lib b] \<and>
              (\<forall>b. Rmtree Lib b \<notin> set pre))"
    unfolding s0 by blast
  have "\<exists>post. log (snd (update e rel s)) = log w @ post \<and> (\<forall>b. Rmtree Lib b \<notin> set post)"
  proof (cases r0)
    case (Inl err)
    with b have "update e rel s = (Inl err, w)" by (simp add: update_def Let_def)
    then show ?thesis by simp
  next
    case (Inr u)
    obtain r4 s4 where d: "inner_update e (version rel) w = (r4, s4)"
      by (cases "inner_update e (version rel) w") auto
    from Inr b have "backup_installation e ?s0 = (Inr (), w)" by simp
    from after_backup[OF this d] show ?thesis by blast
  qed
  then obtain post where p: "log (snd (update e rel s)) = log w @ post"
    "\<forall>b. Rmtree Lib b \<notin> set post" by blast
  have l: "log (snd (update e rel s)) = log s @ (e0 @ post)" using p(1) e0 by simp
  have first: "\<exists>evs. log (snd (update e rel s)) = log s @ evs \<and>
      ((\<forall>b. Rmtree Lib b \<notin> set evs)
       \<or> (\<exists>pre b post. evs = pre @ [Copytree Lib Lib_backup True, Rmtree Lib b] @ post \<and>
             (\<forall>b'. Rmtree Lib b' \<notin> set pre) \<and> (\<forall>b'. Rmtree Lib b' \<notin> set post)))"
    using c0
  proof
    assume "\<forall>b. Rmtree Lib b \<notin> set e0"
    with p(2) l show ?thesis by (intro exI[of _ "e0 @ post"]) auto
  next
    assume "\<exists>pre b. e0 = pre @ [Copytree Lib Lib_backup True, Rmtree Lib b] \<and>
              (\<forall>b. Rmtree Lib b \<notin> set pre)"
    then obtain pre b where pre: "e0 = pre @ [Copytree Lib Lib_backup True, Rmtree Lib b]"
      "\<forall>b. Rmtree Lib b \<notin> set pre" by blast
    have "e0 @ post = pre @ [Copytree Lib Lib_backup True, Rmtree Lib b] @ post"
      using pre(1) by simp
    with pre(2) p(2) have "\<exists>pre b post'. e0 @ post = pre @ [Copytree Lib Lib_backup True, Rmtree Lib b] @ post' \<and>
             (\<forall>b'. Rmtree Lib b' \<notin> set pre) \<and> (\<forall>b'. Rmtree Lib b' \<notin> set post')"
      by blast
    with l show ?thesis by blast
  qed
  have second: "lib s0 \<noteq> None \<and> lib_backup w' = lib s0"
    if "backup_installation e s0 = (r', w')" "Rmtree Lib b \<in> set (new_events s0 w')" for r' w' b
  proof -
    from backup_installation_shape[OF that(1)] obtain evs where
      "log w' = log s0 @ evs"
      "(\<forall>b. Rmtree Lib b \<notin> set evs) \<or> (lib_backup w' = lib s0 \<and> lib s0 \<noteq> None)"
      by blast
    with that(2) show ?thesis by (auto simp: new_events_def)
  qed
  from first second show ?thesis by blast
qed

lemmas swap_defs = update_def backup_installation_def try_update_def update_finally_def
  rmtree_def copytree_def path_exists_def line_def

text \<open>The restoration as the \<^verbatim>\<open>except\<close> clause intends it: when no tree operation fails and
  \<^verbatim>\<open>_update\<close> raises before the extraction has started, \<^verbatim>\<open>update\<close> raises the same
  exception and leaves the library directory with what it held, and no backup.\<close>

lemma update_restores_after_early_failure:
  assumes nofault: "fault e = (\<lambda>k. None)"
      and live: "lib s = Some t"
      and b: "backup_installation e (line (''Updating to <info>'' @ version_str e (version rel) @ ''</info>'') s) = (r0, w)"
      and d: "inner_update e (version rel) w = (Inl err, w')"
      and early: "\<forall>b. Extractall Lib b \<notin> set (new_events w w')"
  shows "fst (update e rel s) = Inl err
       \<and> lib (snd (update e rel s)) = Some t
       \<and> lib_backup (snd (update e rel s)) = None"
proof -
  let ?s0 = "line (''Updating to <info>'' @ version_str e (version rel) @ ''</info>'') s"
  have s0: "lib ?s0 = Some t" using live by (simp add: line_def show_display_def)
  from b s0 nofault have w: "r0 = Inr ()" "lib w = None" "lib_backup w = Some t"
    by (auto simp: backup_installation_def path_exists_def rmtree_def copytree_def
        record_event_def split: if_splits)
  from inner_update_shape[OF d] obtain evs where
    k: "lib_backup w' = lib_backup w" "log w' = log w @ evs"
       "lib w' = lib w \<or> (\<exists>pre b. evs = pre @ [Extractall Lib b, Rmtree Tmp True])"
    by blast
  from early have "\<forall>b. Extractall Lib b \<notin> set evs"
    unfolding new_events_append[OF k(2)] .
  with k(3) have "lib w' = lib w" by auto
  with k(1) w have w': "lib w' = None" "lib_backup w' = Some t" by simp_all
  have t: "try_update e (version rel) w =
      (Inl err, record_event (Rmtree Lib_backup True)
         (record_event (Copytree Lib_backup Lib True) (w'\<lparr>lib := Some t\<rparr>)\<lparr>lib_backup := None\<rparr>))"
    using d w' nofault
    by (simp add: try_update_def path_exists_def rmtree_def copytree_def record_event_def)
  show ?thesis
    using b w(1) t
    by (simp add: update_def Let_def update_finally_def path_exists_def record_event_def)
qed

text \<open>
  Claim C1 at a run where it fails. The installation exists, the archive passes the
  digest check and \<^verbatim>\<open>extractall\<close> raises after it has written one file into the library
  directory. The \<^verbatim>\<open>except\<close> clause then calls \<^verbatim>\<open>copytree(lib_backup, lib)\<close> on a
  destination that exists, which raises \<^verbatim>\<open>FileExistsError\<close>; the \<^verbatim>\<open>finally\<close> clause removes
  the backup. \<^verbatim>\<open>update\<close> returns with the library directory holding the one new file
  only, and with no backup.
\<close>

theorem restoration_fails_after_partial_extraction:
  "lib example_world = Some old_tree
   \<and> fst (update failing_extract_env release_1_2_0 example_world) = Inl FileExistsError
   \<and> lib (snd (update failing_extract_env release_1_2_0 example_world)) = Some partial_tree
   \<and> lib_backup (snd (update failing_extract_env release_1_2_0 example_world)) = None"
  by (simp add: swap_defs run_defs failing_extract_env_def example_env_def example_http_def
      example_world_def release_1_2_0_def download_loop_short block_size_def digest_hello_def)

theorem failed_download_leaves_launcher_witness:
  "backup_installation missing_release_env
      (line ''Updating to <info>1.2.0</info>'' example_world)
     = (Inr (), \<lparr>lib = None, lib_backup = Some old_tree, bin = Some [], tmp = None,
                 log = [Copytree Lib Lib_backup True, Rmtree Lib True],
                 out = [Line ''Updating to <info>1.2.0</info>'']\<rparr>)
   \<and> fst (inner_update missing_release_env 2
        \<lparr>lib = None, lib_backup = Some old_tree, bin = Some [], tmp = None,
         log = [Copytree Lib Lib_backup True, Rmtree Lib True],
         out = [Line ''Updating to <info>1.2.0</info>'']\<rparr>)
     = Inl (RuntimeError ''Could not find poetry-1.2.0-linux.sha256sum file'')
   \<and> bin (snd (update missing_release_env release_1_2_0 example_world)) = Some []
   \<and> bin example_world = Some []"
proof -
  let ?w = "\<lparr>lib = None, lib_backup = Some old_tree, bin = Some [], tmp = None,
         log = [Copytree Lib Lib_backup True, Rmtree Lib True],
         out = [Line ''Updating to <info>1.2.0</info>'']\<rparr>"
  have v: "version_str missing_release_env 2 = ''1.2.0''" "version release_1_2_0 = 2"
    by (simp_all add: missing_release_env_def example_env_def release_1_2_0_def)
  have b': "backup_installation missing_release_env
      (line ''Updating to <info>1.2.0</info>'' example_world) = (Inr (), ?w)"
    by (simp add: swap_defs record_event_def show_display_def missing_release_env_def
        example_env_def example_world_def)
  have b: "backup_installation missing_release_env
      (line (''Updating to <info>'' @ version_str missing_release_env (version release_1_2_0)
             @ ''</info>'') example_world) = (Inr (), ?w)"
    using b' by (simp add: v)
  have d': "fst (inner_update missing_release_env 2 ?w)
     = Inl (RuntimeError ''Could not find poetry-1.2.0-linux.sha256sum file'')"
    by (simp add: run_defs missing_release_env_def example_env_def)
  then obtain w' where d: "inner_update missing_release_env (version release_1_2_0) ?w
     = (Inl (RuntimeError ''Could not find poetry-1.2.0-linux.sha256sum file''), w')"
    by (cases "inner_update missing_release_env 2 ?w") (auto simp: v)
  have e: "bin example_world = Some []" by (simp add: example_world_def)
  from failed_download_leaves_launcher[OF b d]
  have c: "bin (snd (update missing_release_env release_1_2_0 example_world)) = Some []"
    unfolding e by blast
  from b' d' c e show ?thesis by blast
qed

theorem backup_complete_before_removal_witness:
  "lib example_world = Some old_tree
   \<and> Rmtree Lib True \<in> set (new_events example_world
         (snd (backup_installation example_env example_world)))
   \<and> lib_backup (snd (backup_installation example_env example_world)) = Some old_tree"
proof -
  have b: "backup_installation example_env example_world
     = (Inr (), \<lparr>lib = None, lib_backup = Some old_tree, bin = Some [], tmp = None,
                 log = [Copytree Lib Lib_backup True, Rmtree Lib True], out = []\<rparr>)"
    by (simp add: swap_defs record_event_def example_env_def example_world_def)
  have r: "Rmtree Lib True \<in> set (new_events example_world
         (snd (backup_installation example_env example_world)))"
    unfolding b by (simp add: new_events_def example_world_def)
  have l: "lib example_world = Some old_tree" by (simp add: example_world_def)
  from backup_complete_before_removal[of example_env release_1_2_0 example_world example_world]
       b r l
  show ?thesis by auto
qed

end
